theory Spec2Isabelle
  imports Complex_Main "HOL-Library.Char_ord" "HOL-Library.List_Lexorder"
begin

section \<open>Traveller workflow (traveller-api, workflows/traveller.py)\<close>

text \<open>
  The workflow object of \<^verbatim>\<open>TravellerWorkflow\<close>: the fields set by \<^verbatim>\<open>__init__\<close>.
  \<^verbatim>\<open>status\<close> is a Python string; \<^verbatim>\<open>route_index\<close> starts at 0 and is only ever
  reset to 0 or incremented, so it is a natural number.
\<close>

record traveller =
  workflow_id :: string
  current_node :: string
  end_node :: string
  route :: "string list"
  route_index :: nat
  status :: string
  interrupted :: bool

record traveller_input =
  start_node_in :: string
  end_node_in :: string
  workflow_id_in :: string


text \<open>
  The coroutine \<^verbatim>\<open>run\<close> is cut at its suspension points. A control point says where
  the coroutine stands: before \<^verbatim>\<open>run\<close> is called, inside \<^verbatim>\<open>_calculate_route\<close>
  awaiting one of its two activities (for the initial route or for a replan; the second
  activity carries its two arguments), at the head of the \<^verbatim>\<open>while\<close> loop, inside
  \<^verbatim>\<open>workflow.sleep(1)\<close>, returned, or failed with the exception of an activity.
\<close>

datatype phase = Initial | Replan

datatype pc =
    Not_started
  | Await_traffic phase
  | Await_route phase string string
  | Loop_head
  | Sleeping
  | Returned
  | Failed

text \<open>
  What makes the coroutine move: the call of \<^verbatim>\<open>run\<close>, the completion of an activity
  (\<^verbatim>\<open>fetch_route\<close> answers with a dictionary, of which only the entry \<^verbatim>\<open>"route"\<close> is
  read, \<^verbatim>\<open>None\<close> standing for a missing key), the failure of an activity, the timer of
  the sleep, the signal \<^verbatim>\<open>interrupt\<close>, and the execution of one pass of the loop from its
  head up to the next suspension point.
\<close>

datatype event =
    Run traveller_input
  | Traffic_model_fetched
  | Route_fetched "string list option"
  | Activity_error
  | Timer_fired
  | Interrupt_signal
  | Loop_pass

text \<open>\<^verbatim>\<open>route_data.get("route", [])\<close>.\<close>

definition get_route :: "string list option \<Rightarrow> string list" where
  "get_route r = (case r of None \<Rightarrow> [] | Some xs \<Rightarrow> xs)"

text \<open>The signal handler \<^verbatim>\<open>interrupt\<close>.\<close>

definition interrupt :: "traveller \<Rightarrow> traveller" where
  "interrupt s = s\<lparr>interrupted := True\<rparr>"

text \<open>The query handler \<^verbatim>\<open>get_state\<close>: the fields of \<^verbatim>\<open>TravellerState\<close>.\<close>

definition get_state :: "traveller \<Rightarrow> string \<times> string \<times> string \<times> string list \<times> nat \<times> string" where
  "get_state s =
     (workflow_id s, current_node s, end_node s, route s, route_index s, status s)"

text \<open>
  One pass of the \<^verbatim>\<open>while\<close> loop of \<^verbatim>\<open>run\<close>, from the loop test to the next
  suspension point or to the \<^verbatim>\<open>return\<close>.
\<close>

definition loop_pass :: "traveller \<Rightarrow> pc \<times> traveller" where
  "loop_pass s =
     (if route_index s < length (route s) then
        if interrupted s then (Await_traffic Replan, s)
        else
          let s1 = s\<lparr>current_node := route s ! route_index s\<rparr> in
          if current_node s1 = end_node s1 then (Returned, s1\<lparr>status := ''Finished''\<rparr>)
          else (Sleeping, s1)
      else (Returned, s))"

text \<open>
  One move of the workflow. \<^verbatim>\<open>None\<close> means that the event cannot happen at this control
  point: signals are handled only while the coroutine is suspended, and a completed
  workflow handles nothing.
\<close>

definition step :: "event \<Rightarrow> pc \<times> traveller \<Rightarrow> (pc \<times> traveller) option" where
  "step e c =
     (let p = fst c; s = snd c in
      case e of
        Run inp \<Rightarrow>
          (case p of
             Not_started \<Rightarrow>
               Some (Await_traffic Initial,
                     s\<lparr>workflow_id := workflow_id_in inp,
                       current_node := start_node_in inp,
                       end_node := end_node_in inp\<rparr>)
           | _ \<Rightarrow> None)
      | Traffic_model_fetched \<Rightarrow>
          (case p of
             Await_traffic ph \<Rightarrow> Some (Await_route ph (current_node s) (end_node s), s)
           | _ \<Rightarrow> None)
      | Route_fetched r \<Rightarrow>
          (case p of
             Await_route Initial a b \<Rightarrow>
               Some (Loop_head, s\<lparr>route := get_route r, route_index := 0\<rparr>)
           | Await_route Replan a b \<Rightarrow>
               Some (Loop_head,
                     s\<lparr>route := get_route r, route_index := 0, interrupted := False\<rparr>)
           | _ \<Rightarrow> None)
      | Activity_error \<Rightarrow>
          (case p of
             Await_traffic ph \<Rightarrow> Some (Failed, s)
           | Await_route ph a b \<Rightarrow> Some (Failed, s)
           | _ \<Rightarrow> None)
      | Timer_fired \<Rightarrow>
          (case p of
             Sleeping \<Rightarrow> Some (Loop_head, s\<lparr>route_index := route_index s + 1\<rparr>)
           | _ \<Rightarrow> None)
      | Interrupt_signal \<Rightarrow>
          (case p of
             Await_traffic ph \<Rightarrow> Some (p, interrupt s)
           | Await_route ph a b \<Rightarrow> Some (p, interrupt s)
           | Sleeping \<Rightarrow> Some (p, interrupt s)
           | _ \<Rightarrow> None)
      | Loop_pass \<Rightarrow>
          (case p of
             Loop_head \<Rightarrow> Some (loop_pass s)
           | _ \<Rightarrow> None))"

fun exec :: "event list \<Rightarrow> pc \<times> traveller \<Rightarrow> (pc \<times> traveller) option" where
  "exec [] c = Some c"
| "exec (e # es) c = (case step e c of None \<Rightarrow> None | Some c' \<Rightarrow> exec es c')"


section \<open>Traffic generator (traffic-api, services/traffic_generator.py)\<close>

subsection \<open>Python values\<close>

text \<open>
  Python floats are modelled by exact real numbers, and \<^verbatim>\<open>float('inf')\<close> by a value of
  its own, greater than every number.
\<close>

datatype num = Finite real | Infinity

fun num_le :: "num \<Rightarrow> num \<Rightarrow> bool" where
  "num_le (Finite a) (Finite b) = (a \<le> b)"
| "num_le _ Infinity = True"
| "num_le Infinity (Finite b) = False"

fun num_less :: "num \<Rightarrow> num \<Rightarrow> bool" where
  "num_less (Finite a) (Finite b) = (a < b)"
| "num_less (Finite a) Infinity = True"
| "num_less Infinity _ = False"

fun num_add :: "num \<Rightarrow> real \<Rightarrow> num" where
  "num_add (Finite a) w = Finite (a + w)"
| "num_add Infinity w = Infinity"

datatype error = ValueError string | KeyError string | OverflowError

text \<open>\<^verbatim>\<open>round(x)\<close> of a float: to the nearest integer, a tie going to the even one.\<close>

definition py_round :: "real \<Rightarrow> int" where
  "py_round x =
     (let f = \<lfloor>x\<rfloor>; d = x - of_int f in
      if d < 1 / 2 then f
      else if 1 / 2 < d then f + 1
      else if even f then f else f + 1)"

text \<open>\<^verbatim>\<open>round(x / 10)\<close>, which raises \<^verbatim>\<open>OverflowError\<close> on an infinite float.\<close>

fun round_tenth :: "num \<Rightarrow> error + int" where
  "round_tenth (Finite d) = Inr (py_round (d / 10))"
| "round_tenth Infinity = Inl OverflowError"

text \<open>\<^verbatim>\<open>int(x)\<close> of a float: truncation towards zero.\<close>

definition py_int :: "real \<Rightarrow> int" where
  "py_int x = (if 0 \<le> x then \<lfloor>x\<rfloor> else \<lceil>x\<rceil>)"

text \<open>\<^verbatim>\<open>str(n)\<close> of a non-negative integer, and of an integer.\<close>

fun str_nat :: "nat \<Rightarrow> string" where
  "str_nat n =
     (if n < 10 then [char_of (48 + n)]
      else str_nat (n div 10) @ [char_of (48 + n mod 10)])"

declare str_nat.simps [simp del]

definition str_int :: "int \<Rightarrow> string" where
  "str_int i = (if i < 0 then CHR ''-'' # str_nat (nat (- i)) else str_nat (nat i))"

subsection \<open>The sources of non-determinism\<close>

text \<open>
  What the generator reads from outside: the successive results of
  \<^verbatim>\<open>random.random()\<close>, the successive raw draws behind \<^verbatim>\<open>random.randint\<close> and
  \<^verbatim>\<open>random.choice\<close>, the successive readings of \<^verbatim>\<open>int(time.time() * 1000)\<close> and of
  \<^verbatim>\<open>datetime.now().hour\<close>, and the successive values of \<^verbatim>\<open>uuid4().hex[:9]\<close>.
  Nothing is assumed of these sequences. Reading one takes its first element and leaves
  the rest.
\<close>

record env =
  randoms :: "nat \<Rightarrow> real"
  raw_draws :: "nat \<Rightarrow> nat"
  clock_ms :: "nat \<Rightarrow> int"
  hours :: "nat \<Rightarrow> int"
  uuids :: "nat \<Rightarrow> string"

definition random :: "env \<Rightarrow> real \<times> env" where
  "random w = (randoms w 0, w\<lparr>randoms := (\<lambda>n. randoms w (Suc n))\<rparr>)"

definition randint :: "int \<Rightarrow> int \<Rightarrow> env \<Rightarrow> int \<times> env" where
  "randint a b w =
     (a + int (raw_draws w 0 mod nat (b - a + 1)),
      w\<lparr>raw_draws := (\<lambda>n. raw_draws w (Suc n))\<rparr>)"

definition choice :: "'a list \<Rightarrow> env \<Rightarrow> 'a \<times> env" where
  "choice xs w =
     (xs ! (raw_draws w 0 mod length xs), w\<lparr>raw_draws := (\<lambda>n. raw_draws w (Suc n))\<rparr>)"

definition time_ms :: "env \<Rightarrow> int \<times> env" where
  "time_ms w = (clock_ms w 0, w\<lparr>clock_ms := (\<lambda>n. clock_ms w (Suc n))\<rparr>)"

definition now_hour :: "env \<Rightarrow> int \<times> env" where
  "now_hour w = (hours w 0, w\<lparr>hours := (\<lambda>n. hours w (Suc n))\<rparr>)"

definition uuid4_hex9 :: "env \<Rightarrow> string \<times> env" where
  "uuid4_hex9 w = (uuids w 0, w\<lparr>uuids := (\<lambda>n. uuids w (Suc n))\<rparr>)"

subsection \<open>The generator's state\<close>

record config =
  node_count :: int
  update_interval :: int
  base_traffic_level :: real
  traffic_variability :: real
  incident_probability :: real
  road_density :: real

text \<open>
  A configuration dictionary as a caller gives it: every key may be missing.
\<close>

record config_dict =
  cd_node_count :: "int option"
  cd_update_interval :: "int option"
  cd_base_traffic_level :: "real option"
  cd_traffic_variability :: "real option"
  cd_incident_probability :: "real option"
  cd_road_density :: "real option"

record vertex =
  v_id :: string
  v_name :: string
  v_x :: real
  v_y :: real

record edge =
  e_id :: string
  e_from :: string
  e_to :: string
  e_weight :: real
  e_distance :: int
  e_speed :: int
  e_vehicleCount :: int
  e_isIncident :: bool
  e_incidentSeverity :: real
  e_bidirectional :: bool

record incident =
  i_id :: string
  i_edgeId :: string
  i_from :: string
  i_to :: string
  i_severity :: real
  i_startTime :: int
  i_endTime :: int
  i_type :: string
  i_description :: string

text \<open>
  The fields of \<^verbatim>\<open>TrafficGenerator\<close> that the simulation reads and writes, and the
  sources it draws from. The asyncio task, the callbacks and the start time are left out.
  A function that can raise returns the exception (or its value) together with the state
  at that moment: an exception undoes nothing.
\<close>

record tgen =
  config :: config
  vertices :: "vertex list"
  edges :: "edge list"
  incidents :: "incident list"
  update_count :: nat
  env :: env

text \<open>\<^verbatim>\<open>_generate_random_traffic\<close> and \<^verbatim>\<open>_calculate_speed\<close>.\<close>

definition generate_random_traffic :: "config \<Rightarrow> env \<Rightarrow> real \<times> env" where
  "generate_random_traffic c w =
     (let base = base_traffic_level c;
          variability = traffic_variability c;
          (r, w1) = random w;
          random_factor = (r - 0.5) * variability * 4
      in (max 0 (min 1 (base + random_factor)), w1))"

definition calculate_speed :: "real \<Rightarrow> int" where
  "calculate_speed traffic_level = py_round (60 - traffic_level * 55)"

subsection \<open>Graph generation\<close>

text \<open>The body of the first loop of \<^verbatim>\<open>_initialize_graph\<close>: one vertex.\<close>

definition add_vertex :: "nat \<Rightarrow> tgen \<Rightarrow> tgen" where
  "add_vertex i st =
     (let (rx, w1) = random (env st);
          (ry, w2) = random w1
      in st\<lparr>vertices := vertices st @
              [\<lparr>v_id = ''node_'' @ str_nat i,
                v_name = ''Intersection '' @ str_nat (i + 1),
                v_x = rx * 800 + 50,
                v_y = ry * 500 + 50\<rparr>],
            env := w2\<rparr>)"

text \<open>
  The list \<^verbatim>\<open>distances\<close> for node \<^verbatim>\<open>i\<close>, as pairs of index and distance, and
  \<^verbatim>\<open>distances.sort(key=...)\<close>: a stable sort by ascending distance.
\<close>

definition node_distances :: "nat \<Rightarrow> vertex list \<Rightarrow> (nat \<times> num) list" where
  "node_distances i vs =
     map (\<lambda>j. if i = j then (j, Infinity)
              else let dx = v_x (vs ! i) - v_x (vs ! j);
                       dy = v_y (vs ! i) - v_y (vs ! j)
                   in (j, Finite (sqrt (dx * dx + dy * dy))))
         [0..<length vs]"

fun insort_distance :: "nat \<times> num \<Rightarrow> (nat \<times> num) list \<Rightarrow> (nat \<times> num) list" where
  "insort_distance x [] = [x]"
| "insort_distance x (y # ys) =
     (if num_le (snd x) (snd y) then x # y # ys else y # insort_distance x ys)"

definition sort_distances :: "(nat \<times> num) list \<Rightarrow> (nat \<times> num) list" where
  "sort_distances xs = foldr insort_distance xs []"

text \<open>
  The body of the loop over \<^verbatim>\<open>k\<close>: the candidate road from node \<^verbatim>\<open>i\<close> to the node of
  the entry \<^verbatim>\<open>jd\<close>. \<^verbatim>\<open>edge_set\<close> is the local set of keys \<^verbatim>\<open>'a-b'\<close>.
\<close>

definition try_connect ::
  "nat \<Rightarrow> nat \<times> num \<Rightarrow> string set \<Rightarrow> tgen \<Rightarrow> (error + string set) \<times> tgen" where
  "try_connect i jd edge_set st =
     (let j = fst jd;
          edge_key = str_nat (min i j) @ ''-'' @ str_nat (max i j)
      in if edge_key \<in> edge_set then (Inr edge_set, st)
         else
           let (r, w1) = random (env st) in
           if r < road_density (config st) + 0.5 then
             let distance = snd jd;
                 (traffic, w2) = generate_random_traffic (config st) w1
             in case round_tenth distance of
                  Inl err \<Rightarrow> (Inl err, st\<lparr>env := w2\<rparr>)
                | Inr d \<Rightarrow>
                    let (vc, w3) = randint 0 49 w2
                    in (Inr (insert edge_key edge_set),
                        st\<lparr>edges := edges st @
                              [\<lparr>e_id = ''edge_'' @ str_nat (length (edges st)),
                                e_from = v_id (vertices st ! i),
                                e_to = v_id (vertices st ! j),
                                e_weight = traffic,
                                e_distance = d,
                                e_speed = calculate_speed traffic,
                                e_vehicleCount = vc,
                                e_isIncident = False,
                                e_incidentSeverity = 0,
                                e_bidirectional = True\<rparr>],
                            env := w3\<rparr>)
           else (Inr edge_set, st\<lparr>env := w1\<rparr>))"

fun connect_loop ::
  "nat \<Rightarrow> (nat \<times> num) list \<Rightarrow> string set \<Rightarrow> tgen \<Rightarrow> (error + string set) \<times> tgen" where
  "connect_loop i [] edge_set st = (Inr edge_set, st)"
| "connect_loop i (jd # rest) edge_set st =
     (case try_connect i jd edge_set st of
        (Inl err, st1) \<Rightarrow> (Inl err, st1)
      | (Inr edge_set1, st1) \<Rightarrow> connect_loop i rest edge_set1 st1)"

text \<open>The body of the loop over \<^verbatim>\<open>i\<close>: the roads of one node.\<close>

definition connect_node :: "nat \<Rightarrow> string set \<Rightarrow> tgen \<Rightarrow> (error + string set) \<times> tgen" where
  "connect_node i edge_set st =
     (let distances = sort_distances (node_distances i (vertices st));
          (r, w1) = randint 0 2 (env st);
          connect_count = 2 + r
      in connect_loop i
           (take (nat (min connect_count (int (length distances)))) distances)
           edge_set (st\<lparr>env := w1\<rparr>))"

fun connect_nodes :: "nat list \<Rightarrow> string set \<Rightarrow> tgen \<Rightarrow> (error + string set) \<times> tgen" where
  "connect_nodes [] edge_set st = (Inr edge_set, st)"
| "connect_nodes (i # rest) edge_set st =
     (case connect_node i edge_set st of
        (Inl err, st1) \<Rightarrow> (Inl err, st1)
      | (Inr edge_set1, st1) \<Rightarrow> connect_nodes rest edge_set1 st1)"

text \<open>
  \<^verbatim>\<open>_ensure_connectivity\<close>. The inner loop keeps the two variables \<^verbatim>\<open>nearest\<close> and
  \<^verbatim>\<open>min_dist\<close>, which change together: \<^verbatim>\<open>None\<close> stands for \<^verbatim>\<open>nearest = None\<close> with
  \<^verbatim>\<open>min_dist = inf\<close>.
\<close>

fun find_nearest ::
  "vertex \<Rightarrow> vertex list \<Rightarrow> string set \<Rightarrow> (vertex \<times> real) option \<Rightarrow> (vertex \<times> real) option" where
  "find_nearest v [] connected_nodes best = best"
| "find_nearest v (other # rest) connected_nodes best =
     (if v_id other \<in> connected_nodes then
        let dx = v_x v - v_x other;
            dy = v_y v - v_y other;
            dist = sqrt (dx * dx + dy * dy)
        in if (case best of None \<Rightarrow> True | Some (n, min_dist) \<Rightarrow> dist < min_dist)
           then find_nearest v rest connected_nodes (Some (other, dist))
           else find_nearest v rest connected_nodes best
      else find_nearest v rest connected_nodes best)"

fun connect_isolated :: "vertex list \<Rightarrow> string set \<Rightarrow> tgen \<Rightarrow> tgen" where
  "connect_isolated [] connected_nodes st = st"
| "connect_isolated (v # rest) connected_nodes st =
     (if v_id v \<notin> connected_nodes then
        (case find_nearest v (vertices st) connected_nodes None of
           None \<Rightarrow> connect_isolated rest connected_nodes st
         | Some (nearest, min_dist) \<Rightarrow>
             let (traffic, w1) = generate_random_traffic (config st) (env st);
                 (vc, w2) = randint 0 49 w1
             in connect_isolated rest (insert (v_id v) connected_nodes)
                  (st\<lparr>edges := edges st @
                        [\<lparr>e_id = ''edge_'' @ str_nat (length (edges st)),
                          e_from = v_id v,
                          e_to = v_id nearest,
                          e_weight = traffic,
                          e_distance = py_round (min_dist / 10),
                          e_speed = calculate_speed traffic,
                          e_vehicleCount = vc,
                          e_isIncident = False,
                          e_incidentSeverity = 0,
                          e_bidirectional = True\<rparr>],
                      env := w2\<rparr>))
      else connect_isolated rest connected_nodes st)"

definition ensure_connectivity :: "tgen \<Rightarrow> tgen" where
  "ensure_connectivity st =
     (let connected_nodes =
            fold (\<lambda>e cn. insert (e_to e) (insert (e_from e) cn)) (edges st) {}
      in connect_isolated (vertices st) connected_nodes st)"

text \<open>\<^verbatim>\<open>_initialize_graph\<close>.\<close>

definition initialize_graph :: "tgen \<Rightarrow> (error + unit) \<times> tgen" where
  "initialize_graph st =
     (let st1 = fold add_vertex [0..<nat (node_count (config st))] (st\<lparr>vertices := []\<rparr>);
          st2 = st1\<lparr>edges := []\<rparr>
      in case connect_nodes [0..<length (vertices st2)] {} st2 of
           (Inl err, st3) \<Rightarrow> (Inl err, st3)
         | (Inr edge_set, st3) \<Rightarrow> (Inr (), ensure_connectivity st3))"

text \<open>
  \<^verbatim>\<open>__init__\<close>: the configuration with its defaults, empty lists, and the first graph.
\<close>

definition get_or :: "'a option \<Rightarrow> 'a \<Rightarrow> 'a" where
  "get_or v d = (case v of None \<Rightarrow> d | Some x \<Rightarrow> x)"

definition new_generator :: "config_dict \<Rightarrow> env \<Rightarrow> (error + unit) \<times> tgen" where
  "new_generator cd w =
     initialize_graph
       \<lparr>config =
          \<lparr>node_count = get_or (cd_node_count cd) 20,
           update_interval = get_or (cd_update_interval cd) 30000,
           base_traffic_level = get_or (cd_base_traffic_level cd) 0.15,
           traffic_variability = get_or (cd_traffic_variability cd) 0.35,
           incident_probability = get_or (cd_incident_probability cd) 0.00001,
           road_density = get_or (cd_road_density cd) 0.3\<rparr>,
        vertices = [], edges = [], incidents = [], update_count = 0, env = w\<rparr>"

subsection \<open>Incidents\<close>

text \<open>
  An assignment to a key of \<^verbatim>\<open>next((e for e in self.edges if e['id'] == edge_id), None)\<close>
  changes the first edge of the list that has this id.
\<close>

fun update_first :: "('a \<Rightarrow> bool) \<Rightarrow> ('a \<Rightarrow> 'a) \<Rightarrow> 'a list \<Rightarrow> 'a list" where
  "update_first P f [] = []"
| "update_first P f (x # xs) = (if P x then f x # xs else x # update_first P f xs)"

text \<open>
  The condition of the two list comprehensions \<^verbatim>\<open>connected_edges\<close>: another id, and
  a common endpoint with \<^verbatim>\<open>edge\<close>.
\<close>

definition connected_to :: "edge \<Rightarrow> edge \<Rightarrow> bool" where
  "connected_to edge e =
     (e_id e \<noteq> e_id edge \<and>
      (e_from e = e_from edge \<or> e_from e = e_to edge \<or>
       e_to e = e_from edge \<or> e_to e = e_to edge))"

text \<open>\<^verbatim>\<open>_get_average_neighbor_traffic\<close>.\<close>

definition get_average_neighbor_traffic :: "edge \<Rightarrow> tgen \<Rightarrow> real" where
  "get_average_neighbor_traffic edge st =
     (let connected_edges = filter (connected_to edge) (edges st)
      in if connected_edges = [] then base_traffic_level (config st)
         else sum_list (map e_weight connected_edges) / real (length connected_edges))"

text \<open>\<^verbatim>\<open>_apply_incident_effect\<close>.\<close>

definition apply_incident_effect :: "string \<Rightarrow> real \<Rightarrow> tgen \<Rightarrow> tgen" where
  "apply_incident_effect edge_id severity st =
     (case find (\<lambda>e. e_id e = edge_id) (edges st) of
        None \<Rightarrow> st
      | Some edge \<Rightarrow>
          let es1 = update_first (\<lambda>e. e_id e = edge_id)
                      (\<lambda>e. e\<lparr>e_weight := min 1 (e_weight e + severity * 0.8)\<rparr>) (edges st);
              es2 = map (\<lambda>e. if connected_to edge e
                              then e\<lparr>e_weight := min 1 (e_weight e + severity * 0.5)\<rparr>
                              else e) es1
          in st\<lparr>edges := es2\<rparr>)"

text \<open>\<^verbatim>\<open>_get_random_incident_type\<close> and \<^verbatim>\<open>_get_incident_description\<close>.\<close>

definition get_random_incident_type :: "env \<Rightarrow> string \<times> env" where
  "get_random_incident_type w =
     choice [''accident'', ''construction'', ''roadblock'', ''weather'', ''event''] w"

definition get_incident_description :: "string \<Rightarrow> real \<Rightarrow> string" where
  "get_incident_description incident_type severity =
     (let severity_cap =
            (if 0.7 < severity then ''Severe''
             else if 0.4 < severity then ''Moderate'' else ''Minor'')
      in if incident_type = ''accident'' then severity_cap @ '' vehicle accident causing delays''
         else if incident_type = ''construction'' then severity_cap @ '' road construction work''
         else if incident_type = ''roadblock'' then severity_cap @ '' road closure or blockage''
         else if incident_type = ''weather'' then severity_cap @ '' weather-related conditions''
         else if incident_type = ''event'' then severity_cap @ '' special event causing congestion''
         else severity_cap @ '' traffic incident'')"

text \<open>
  \<^verbatim>\<open>incident_type or self._get_random_incident_type()\<close>: the given type when it is a
  non-empty string, a random one otherwise.
\<close>

definition type_or_random :: "string option \<Rightarrow> env \<Rightarrow> string \<times> env" where
  "type_or_random incident_type w =
     (case incident_type of
        None \<Rightarrow> get_random_incident_type w
      | Some t \<Rightarrow> if t = [] then get_random_incident_type w else (t, w))"

text \<open>\<^verbatim>\<open>create_incident\<close>.\<close>

definition create_incident ::
  "string \<Rightarrow> real \<Rightarrow> real \<Rightarrow> string option \<Rightarrow> tgen \<Rightarrow> (error + incident) \<times> tgen" where
  "create_incident edge_id severity duration incident_type st =
     (case find (\<lambda>e. e_id e = edge_id) (edges st) of
        None \<Rightarrow> (Inl (ValueError (''Edge not found: '' @ edge_id)), st)
      | Some edge \<Rightarrow>
          if e_isIncident edge then
            (Inl (ValueError (''Edge '' @ edge_id @ '' already has an active incident'')), st)
          else
            let validated_severity = max 0 (min 1 severity);
                validated_duration = max 10000 (min 3600000 duration);
                (t1, w1) = time_ms (env st);
                (u, w2) = uuid4_hex9 w1;
                (t2, w3) = time_ms w2;
                (t3, w4) = time_ms w3;
                (ty1, w5) = type_or_random incident_type w4;
                (ty2, w6) = type_or_random incident_type w5;
                incident =
                  \<lparr>i_id = ''incident_'' @ str_int t1 @ ''_'' @ u,
                   i_edgeId = edge_id,
                   i_from = e_from edge,
                   i_to = e_to edge,
                   i_severity = validated_severity,
                   i_startTime = t2,
                   i_endTime = t3 + py_int validated_duration,
                   i_type = ty1,
                   i_description = get_incident_description ty2 validated_severity\<rparr>;
                st1 = st\<lparr>incidents := incidents st @ [incident], env := w6\<rparr>;
                st2 = st1\<lparr>edges := update_first (\<lambda>e. e_id e = edge_id)
                                     (\<lambda>e. e\<lparr>e_isIncident := True,
                                            e_incidentSeverity := i_severity incident\<rparr>)
                                     (edges st1)\<rparr>
            in (Inr incident, apply_incident_effect edge_id (i_severity incident) st2))"

text \<open>\<^verbatim>\<open>_update_incidents\<close>.\<close>

definition clear_edge_flags :: "string \<Rightarrow> edge list \<Rightarrow> edge list" where
  "clear_edge_flags edge_id es =
     update_first (\<lambda>e. e_id e = edge_id)
       (\<lambda>e. e\<lparr>e_isIncident := False, e_incidentSeverity := 0\<rparr>) es"

definition update_incidents :: "tgen \<Rightarrow> tgen" where
  "update_incidents st =
     (let (now, w1) = time_ms (env st);
          incidents_to_remove = filter (\<lambda>i. i_endTime i \<le> now) (incidents st)
      in st\<lparr>edges := fold (\<lambda>i es. clear_edge_flags (i_edgeId i) es)
                         incidents_to_remove (edges st),
            incidents := fold remove1 incidents_to_remove (incidents st),
            env := w1\<rparr>)"

text \<open>\<^verbatim>\<open>clear_incident\<close>.\<close>

definition clear_incident :: "string \<Rightarrow> tgen \<Rightarrow> (error + incident) \<times> tgen" where
  "clear_incident incident_id st =
     (case find (\<lambda>i. i_id i = incident_id) (incidents st) of
        None \<Rightarrow> (Inl (ValueError (''Incident not found: '' @ incident_id)), st)
      | Some incident \<Rightarrow>
          (Inr incident,
           st\<lparr>edges := clear_edge_flags (i_edgeId incident) (edges st),
             incidents := remove1 incident (incidents st)\<rparr>))"

subsection \<open>The tick\<close>

text \<open>
  The body of the loop of \<^verbatim>\<open>_update_traffic\<close> for the edge at position \<^verbatim>\<open>i\<close>, in
  three parts: the new traffic level (from \<^verbatim>\<open>avg_neighbor_traffic\<close> to the clamp), the
  assignments to the edge, and the random incident. The loop runs over the list
  \<^verbatim>\<open>self.edges\<close>, whose length no statement of the loop changes.
\<close>

definition new_traffic_level :: "real \<Rightarrow> edge \<Rightarrow> tgen \<Rightarrow> real \<times> env" where
  "new_traffic_level time_multiplier edge st =
     (let avg_neighbor_traffic = get_average_neighbor_traffic edge st;
          (r1, w1) = random (env st);
          random_change = (r1 - 0.5) * 0.2;
          new1 = e_weight edge * 0.85 + avg_neighbor_traffic * 0.05 + random_change;
          (r2, w2) = random w1;
          (new2, w3) = (if r2 < 0.05
                        then let (r3, w) = random w2 in (new1 + (r3 - 0.5) * 0.15, w)
                        else (new1, w2));
          new3 = new2 * time_multiplier
      in (max 0 (min 1 new3), w3))"

definition random_incident :: "edge \<Rightarrow> tgen \<Rightarrow> (error + unit) \<times> tgen" where
  "random_incident edge st =
     (if \<not> e_isIncident edge then
        let (r4, w1) = random (env st) in
        if r4 < incident_probability (config st) then
          let (r5, w2) = random w1;
              (r6, w3) = random w2
          in case create_incident (e_id edge) (r5 * 0.5 + 0.3) (30000 + r6 * 60000) None
                    (st\<lparr>env := w3\<rparr>) of
               (Inl err, st1) \<Rightarrow> (Inl err, st1)
             | (Inr incident, st1) \<Rightarrow> (Inr (), st1)
        else (Inr (), st\<lparr>env := w1\<rparr>)
      else (Inr (), st))"

definition update_edge :: "real \<Rightarrow> nat \<Rightarrow> tgen \<Rightarrow> (error + unit) \<times> tgen" where
  "update_edge time_multiplier i st =
     (let edge = edges st ! i;
          (new_traffic, w1) = new_traffic_level time_multiplier edge st;
          base_vehicles = py_int (new_traffic * 100);
          (k, w2) = randint (- 5) 5 w1;
          edge1 = edge\<lparr>e_weight := new_traffic,
                       e_speed := calculate_speed new_traffic,
                       e_vehicleCount := max 0 (base_vehicles + k)\<rparr>
      in random_incident edge1 (st\<lparr>edges := (edges st)[i := edge1], env := w2\<rparr>))"

fun update_edges :: "real \<Rightarrow> nat list \<Rightarrow> tgen \<Rightarrow> (error + unit) \<times> tgen" where
  "update_edges time_multiplier [] st = (Inr (), st)"
| "update_edges time_multiplier (i # rest) st =
     (case update_edge time_multiplier i st of
        (Inl err, st1) \<Rightarrow> (Inl err, st1)
      | (Inr u, st1) \<Rightarrow> update_edges time_multiplier rest st1)"

definition time_multiplier_of :: "int \<Rightarrow> real" where
  "time_multiplier_of hour =
     (if 7 \<le> hour \<and> hour \<le> 9 then 1.5
      else if 17 \<le> hour \<and> hour \<le> 19 then 1.6
      else if 23 \<le> hour \<or> hour \<le> 5 then 0.4
      else 1.0)"

text \<open>
  The first part of \<^verbatim>\<open>_update_traffic\<close>, up to the end of the loop over the edges, and
  \<^verbatim>\<open>_update_traffic\<close> itself, which then expires the incidents. The callbacks of
  \<^verbatim>\<open>_emit_update\<close> are outside the model.
\<close>

definition update_all_edges :: "tgen \<Rightarrow> (error + unit) \<times> tgen" where
  "update_all_edges st =
     (let st0 = st\<lparr>update_count := update_count st + 1\<rparr>;
          (hour, w1) = now_hour (env st0)
      in update_edges (time_multiplier_of hour) [0..<length (edges st0)] (st0\<lparr>env := w1\<rparr>))"

definition update_traffic :: "tgen \<Rightarrow> (error + unit) \<times> tgen" where
  "update_traffic st =
     (case update_all_edges st of
        (Inl err, st1) \<Rightarrow> (Inl err, st1)
      | (Inr u, st1) \<Rightarrow> (Inr (), update_incidents st1))"

subsection \<open>Configuration updates\<close>

text \<open>\<^verbatim>\<open>update_config\<close>.\<close>

definition update_config :: "config_dict \<Rightarrow> tgen \<Rightarrow> (error + unit) \<times> tgen" where
  "update_config new_config st =
     (let (st1, reinit1) =
            (case cd_node_count new_config of
               Some n \<Rightarrow>
                 if n \<noteq> node_count (config st)
                 then (st\<lparr>config := (config st)\<lparr>node_count := n\<rparr>\<rparr>, True)
                 else (st, False)
             | None \<Rightarrow> (st, False));
          (st2, needs_reinit) =
            (case cd_road_density new_config of
               Some d \<Rightarrow> (st1\<lparr>config := (config st1)\<lparr>road_density := d\<rparr>\<rparr>, True)
             | None \<Rightarrow> (st1, reinit1));
          (res, st3) = (if needs_reinit then initialize_graph st2 else (Inr (), st2))
      in case res of
           Inl err \<Rightarrow> (Inl err, st3)
         | Inr u \<Rightarrow>
             (Inr (),
              st3\<lparr>config := (config st3)
                    \<lparr>update_interval :=
                       get_or (cd_update_interval new_config) (update_interval (config st3)),
                     base_traffic_level :=
                       get_or (cd_base_traffic_level new_config) (base_traffic_level (config st3)),
                     traffic_variability :=
                       get_or (cd_traffic_variability new_config) (traffic_variability (config st3)),
                     incident_probability :=
                       get_or (cd_incident_probability new_config)
                         (incident_probability (config st3))\<rparr>\<rparr>))"

subsection \<open>Sequences of operations\<close>

text \<open>
  The operations that change a running generator: a tick of the update loop, and the
  three calls of the routes. Whether an operation returns or raises, the generator goes
  on from the state the operation left.
\<close>

datatype operation =
    Tick
  | Create_incident string real real "string option"
  | Clear_incident string
  | Update_config config_dict

fun apply_operation :: "operation \<Rightarrow> tgen \<Rightarrow> tgen" where
  "apply_operation Tick st = snd (update_traffic st)"
| "apply_operation (Create_incident edge_id severity duration ty) st =
     snd (create_incident edge_id severity duration ty st)"
| "apply_operation (Clear_incident incident_id) st = snd (clear_incident incident_id st)"
| "apply_operation (Update_config new_config) st = snd (update_config new_config st)"

definition weights_in_range :: "tgen \<Rightarrow> bool" where
  "weights_in_range st = (\<forall>e \<in> set (edges st). 0 \<le> e_weight e \<and> e_weight e \<le> 1)"

text \<open>
  The position of the edge that \<^verbatim>\<open>next((e for e in self.edges if e['id'] == edge_id), None)\<close>
  returns: the first one with this id.
\<close>

definition target_index :: "string \<Rightarrow> edge list \<Rightarrow> nat" where
  "target_index edge_id es = length (takeWhile (\<lambda>e. e_id e \<noteq> edge_id) es)"

text \<open>
  The edge that owns an incident is the one its \<^verbatim>\<open>edgeId\<close> finds; its incident data are
  cleared when the flag is false and the severity 0. When no edge has the id there is
  nothing to clear.
\<close>

definition flags_cleared :: "string \<Rightarrow> edge list \<Rightarrow> bool" where
  "flags_cleared edge_id es =
     (case find (\<lambda>e. e_id e = edge_id) es of
        None \<Rightarrow> True
      | Some e \<Rightarrow> \<not> e_isIncident e \<and> e_incidentSeverity e = 0)"

text \<open>
  A generator state used to evaluate the operations: three nodes in a row and the two
  roads between them, no incident, each speed the one \<^verbatim>\<open>_calculate_speed\<close> gives for
  the weight.
\<close>

definition example_env :: env where
  "example_env =
     \<lparr>randoms = (\<lambda>n. 9 / 10), raw_draws = (\<lambda>n. 0), clock_ms = (\<lambda>n. 1000),
      hours = (\<lambda>n. 12), uuids = (\<lambda>n. ''0123456789'')\<rparr>"

definition example_edges :: "edge list" where
  "example_edges =
     [\<lparr>e_id = ''edge_0'', e_from = ''node_0'', e_to = ''node_1'', e_weight = 8 / 10,
       e_distance = 10, e_speed = 16, e_vehicleCount = 80, e_isIncident = False,
       e_incidentSeverity = 0, e_bidirectional = True\<rparr>,
      \<lparr>e_id = ''edge_1'', e_from = ''node_1'', e_to = ''node_2'', e_weight = 2 / 10,
       e_distance = 12, e_speed = 49, e_vehicleCount = 20, e_isIncident = False,
       e_incidentSeverity = 0, e_bidirectional = True\<rparr>]"

definition example_state :: tgen where
  "example_state =
     \<lparr>config =
        \<lparr>node_count = 3, update_interval = 30000, base_traffic_level = 15 / 100,
         traffic_variability = 35 / 100, incident_probability = 1 / 100000,
         road_density = 3 / 10\<rparr>,
      vertices =
        [\<lparr>v_id = ''node_0'', v_name = ''Intersection 1'', v_x = 100, v_y = 100\<rparr>,
         \<lparr>v_id = ''node_1'', v_name = ''Intersection 2'', v_x = 200, v_y = 100\<rparr>,
         \<lparr>v_id = ''node_2'', v_name = ''Intersection 3'', v_x = 320, v_y = 100\<rparr>],
      edges = example_edges, incidents = [], update_count = 0, env = example_env\<rparr>"

text \<open>
  The example state some time after an incident of severity 1 on the first road: the
  incident is still in the list, and its end time is before the clock's next reading.
\<close>

definition example_incident :: incident where
  "example_incident =
     \<lparr>i_id = ''incident_100_0123456789'', i_edgeId = ''edge_0'', i_from = ''node_0'',
      i_to = ''node_1'', i_severity = 1, i_startTime = 100, i_endTime = 500,
      i_type = ''accident'', i_description = ''Severe vehicle accident causing delays''\<rparr>"

definition example_state_incident :: tgen where
  "example_state_incident =
     example_state
       \<lparr>edges :=
          [\<lparr>e_id = ''edge_0'', e_from = ''node_0'', e_to = ''node_1'', e_weight = 1,
            e_distance = 10, e_speed = 5, e_vehicleCount = 95, e_isIncident = True,
            e_incidentSeverity = 1, e_bidirectional = True\<rparr>,
           \<lparr>e_id = ''edge_1'', e_from = ''node_1'', e_to = ''node_2'', e_weight = 7 / 10,
            e_distance = 12, e_speed = 22, e_vehicleCount = 70, e_isIncident = False,
            e_incidentSeverity = 0, e_bidirectional = True\<rparr>],
        incidents := [example_incident]\<rparr>"

text \<open>The two roads of that state after one tick at noon.\<close>

definition ticked_edge_0 :: edge where
  "ticked_edge_0 = \<lparr>e_id = ''edge_0'', e_from = ''node_0'', e_to = ''node_1'', e_weight = 193 / 200,
            e_distance = 10, e_speed = 7, e_vehicleCount = 91, e_isIncident = True,
            e_incidentSeverity = 1, e_bidirectional = True\<rparr>"
definition ticked_edge_1 :: edge where
  "ticked_edge_1 = \<lparr>e_id = ''edge_1'', e_from = ''node_1'', e_to = ''node_2'', e_weight = 2893 / 4000,
            e_distance = 12, e_speed = 20, e_vehicleCount = 67, e_isIncident = False,
            e_incidentSeverity = 0, e_bidirectional = True\<rparr>"

(*PROPS*)

section \<open>Properties of the traveller workflow\<close>

lemma exec_append:
  "exec (xs @ ys) c = (case exec xs c of None \<Rightarrow> None | Some c' \<Rightarrow> exec ys c')"
  by (induction xs arbitrary: c) (auto split: option.splits)

lemma exec_interrupts_sleeping:
  "0 < n \<Longrightarrow> exec (replicate n Interrupt_signal) (Sleeping, s) = Some (Sleeping, interrupt s)"
proof (induction n arbitrary: s)
  case 0
  then show ?case by simp
next
  case (Suc n)
  have idem: "interrupt (interrupt s) = interrupt s"
    by (simp add: interrupt_def)
  show ?case
  proof (cases n)
    case 0
    then show ?thesis by (simp add: step_def)
  next
    case (Suc m)
    then have "exec (replicate n Interrupt_signal) (Sleeping, interrupt s)
                 = Some (Sleeping, interrupt (interrupt s))"
      using Suc.IH [of "interrupt s"] by simp
    then show ?thesis by (simp add: step_def idem)
  qed
qed





text \<open>
  Claim C7. An interrupt recorded while a traveller sleeps between two passes of its
  loop (one signal or several) makes the very next pass replan: provided the route is
  not exhausted, so that a next pass takes place, the pass calls the route activity with
  the traveller's current node and its end node, and when the route arrives the route is
  replaced, \<^verbatim>\<open>route_index\<close> is 0, the flag is cleared and \<^verbatim>\<open>current_node\<close> is what
  it was: the pass did not advance. However many signals were recorded there is one
  replan: the pass after it is not a replan.
\<close>

theorem interrupt_replans_next_step:
  assumes "0 < n" and "Suc (route_index s) < length (route s)"
  shows "exec (replicate n Interrupt_signal @ [Timer_fired, Loop_pass, Traffic_model_fetched])
              (Sleeping, s)
           = Some (Await_route Replan (current_node s) (end_node s),
                   s\<lparr>route_index := Suc (route_index s), interrupted := True\<rparr>) \<and>
         exec (replicate n Interrupt_signal @
                 [Timer_fired, Loop_pass, Traffic_model_fetched, Route_fetched r])
              (Sleeping, s)
           = Some (Loop_head, s\<lparr>route := get_route r, route_index := 0, interrupted := False\<rparr>) \<and>
         current_node (s\<lparr>route := get_route r, route_index := 0, interrupted := False\<rparr>)
           = current_node s \<and>
         fst (loop_pass (s\<lparr>route := get_route r, route_index := 0, interrupted := False\<rparr>))
           \<noteq> Await_traffic Replan"
  using assms
  by (simp add: exec_append exec_interrupts_sleeping step_def loop_pass_def interrupt_def Let_def)

theorem interrupt_replans_next_step_witness:
  "exec (replicate 2 Interrupt_signal @
           [Timer_fired, Loop_pass, Traffic_model_fetched, Route_fetched (Some [''b'', ''d'', ''c''])])
        (Sleeping,
         \<lparr>workflow_id = ''w'', current_node = ''a'', end_node = ''c'',
          route = [''a'', ''b'', ''c''], route_index = 0, status = ''Walking'',
          interrupted = False\<rparr>)
     = Some (Loop_head,
         \<lparr>workflow_id = ''w'', current_node = ''a'', end_node = ''c'',
          route = [''b'', ''d'', ''c''], route_index = 0, status = ''Walking'',
          interrupted = False\<rparr>)"
  using interrupt_replans_next_step [of 2
      "\<lparr>workflow_id = ''w'', current_node = ''a'', end_node = ''c'',
        route = [''a'', ''b'', ''c''], route_index = 0, status = ''Walking'',
        interrupted = False\<rparr>" "Some [''b'', ''d'', ''c'']"]
  by (simp add: get_route_def)




section \<open>Properties of the traffic generator\<close>

subsection \<open>Weights stay in the unit interval\<close>

lemma generate_random_traffic_range:
  "generate_random_traffic c w = (t, w') \<Longrightarrow> 0 \<le> t \<and> t \<le> 1"
  by (auto simp: generate_random_traffic_def Let_def split: prod.splits)

lemma weights_in_range_append:
  "weights_in_range st \<Longrightarrow> 0 \<le> e_weight e \<Longrightarrow> e_weight e \<le> 1 \<Longrightarrow> edges st' = edges st @ [e] \<Longrightarrow>
   weights_in_range st'"
  by (auto simp: weights_in_range_def)

lemma weights_in_range_same:
  "weights_in_range st \<Longrightarrow> edges st' = edges st \<Longrightarrow> weights_in_range st'"
  by (simp add: weights_in_range_def)

lemma add_vertex_edges: "edges (add_vertex i st) = edges st"
  by (simp add: add_vertex_def Let_def split: prod.splits)

lemma fold_add_vertex_edges: "edges (fold add_vertex ns st) = edges st"
  by (induction ns arbitrary: st) (simp_all add: add_vertex_edges)

lemma try_connect_range:
  assumes "weights_in_range st"
  shows "weights_in_range (snd (try_connect i jd es st))"
proof -
  obtain r w1 where r: "random (env st) = (r, w1)" by (cases "random (env st)")
  obtain t w2 where t: "generate_random_traffic (config st) w1 = (t, w2)"
    by (cases "generate_random_traffic (config st) w1")
  obtain vc w3 where v: "randint 0 49 w2 = (vc, w3)" by (cases "randint 0 49 w2")
  from generate_random_traffic_range [OF t] have tr: "0 \<le> t" "t \<le> 1" by simp_all
  show ?thesis
    using assms tr
    by (auto simp: try_connect_def Let_def r t v weights_in_range_def split: sum.splits)
qed

lemma connect_loop_range:
  "weights_in_range st \<Longrightarrow> weights_in_range (snd (connect_loop i jds es st))"
proof (induction jds arbitrary: es st)
  case Nil
  then show ?case by simp
next
  case (Cons jd jds)
  obtain res st1 where tc: "try_connect i jd es st = (res, st1)"
    by (cases "try_connect i jd es st")
  from try_connect_range [OF Cons.prems, of i jd es] tc have w1: "weights_in_range st1" by simp
  show ?case
  proof (cases res)
    case (Inl err)
    with tc w1 show ?thesis by simp
  next
    case (Inr es1)
    with tc Cons.IH [OF w1, of es1] show ?thesis by simp
  qed
qed

lemma connect_node_range:
  assumes "weights_in_range st"
  shows "weights_in_range (snd (connect_node i es st))"
proof -
  obtain r w1 where r: "randint 0 2 (env st) = (r, w1)" by (cases "randint 0 2 (env st)")
  have "weights_in_range (st\<lparr>env := w1\<rparr>)"
    using assms by (simp add: weights_in_range_def)
  from connect_loop_range [OF this] show ?thesis
    by (simp add: connect_node_def Let_def r)
qed

lemma connect_nodes_range:
  "weights_in_range st \<Longrightarrow> weights_in_range (snd (connect_nodes ns es st))"
proof (induction ns arbitrary: es st)
  case Nil
  then show ?case by simp
next
  case (Cons i ns)
  obtain res st1 where tc: "connect_node i es st = (res, st1)"
    by (cases "connect_node i es st")
  from connect_node_range [OF Cons.prems, of i es] tc have w1: "weights_in_range st1" by simp
  show ?case
  proof (cases res)
    case (Inl err)
    with tc w1 show ?thesis by simp
  next
    case (Inr es1)
    with tc Cons.IH [OF w1, of es1] show ?thesis by simp
  qed
qed

lemma connect_isolated_range:
  "weights_in_range st \<Longrightarrow> weights_in_range (connect_isolated vs cn st)"
proof (induction vs arbitrary: cn st)
  case Nil
  then show ?case by simp
next
  case (Cons v vs)
  obtain t w1 where t: "generate_random_traffic (config st) (env st) = (t, w1)"
    by (cases "generate_random_traffic (config st) (env st)")
  obtain vc w2 where v: "randint 0 49 w1 = (vc, w2)" by (cases "randint 0 49 w1")
  from generate_random_traffic_range [OF t] have tr: "0 \<le> t" "t \<le> 1" by simp_all
  show ?case
  proof (cases "v_id v \<notin> cn")
    case False
    with Cons show ?thesis by simp
  next
    case True
    show ?thesis
    proof (cases "find_nearest v (vertices st) cn None")
      case None
      with True Cons show ?thesis by simp
    next
      case (Some nm)
      obtain nearest min_dist where nm: "nm = (nearest, min_dist)" by (cases nm)
      let ?st1 = "st\<lparr>edges := edges st @
                        [\<lparr>e_id = ''edge_'' @ str_nat (length (edges st)),
                          e_from = v_id v,
                          e_to = v_id nearest,
                          e_weight = t,
                          e_distance = py_round (min_dist / 10),
                          e_speed = calculate_speed t,
                          e_vehicleCount = vc,
                          e_isIncident = False,
                          e_incidentSeverity = 0,
                          e_bidirectional = True\<rparr>],
                      env := w2\<rparr>"
      have "weights_in_range ?st1"
        using Cons.prems tr by (auto simp: weights_in_range_def)
      from Cons.IH [OF this] show ?thesis
        using True Some nm by (simp add: t v Let_def)
    qed
  qed
qed

lemma ensure_connectivity_range:
  "weights_in_range st \<Longrightarrow> weights_in_range (ensure_connectivity st)"
  by (simp add: ensure_connectivity_def Let_def connect_isolated_range)

lemma initialize_graph_range: "weights_in_range (snd (initialize_graph st))"
proof -
  let ?st2 = "(fold add_vertex [0..<nat (node_count (config st))] (st\<lparr>vertices := []\<rparr>))\<lparr>edges := []\<rparr>"
  have w2: "weights_in_range ?st2" by (simp add: weights_in_range_def)
  obtain res st3 where c: "connect_nodes [0..<length (vertices ?st2)] {} ?st2 = (res, st3)"
    by (cases "connect_nodes [0..<length (vertices ?st2)] {} ?st2")
  from connect_nodes_range [OF w2, of "[0..<length (vertices ?st2)]" "{}"] c
  have w3: "weights_in_range st3" by simp
  show ?thesis
    using c w3 ensure_connectivity_range [OF w3]
    by (cases res) (simp_all add: initialize_graph_def Let_def)
qed

lemma update_first_pres:
  "\<forall>x \<in> set xs. Q x \<Longrightarrow> (\<And>x. Q x \<Longrightarrow> Q (f x)) \<Longrightarrow> \<forall>x \<in> set (update_first P f xs). Q x"
  by (induction xs) auto

lemma length_update_first: "length (update_first P f xs) = length xs"
  by (induction xs) auto

lemma apply_incident_effect_range:
  assumes "weights_in_range st" and "0 \<le> s"
  shows "weights_in_range (apply_incident_effect edge_id s st)"
proof (cases "find (\<lambda>e. e_id e = edge_id) (edges st)")
  case None
  with assms show ?thesis by (simp add: apply_incident_effect_def)
next
  case (Some edge)
  let ?Q = "\<lambda>e. 0 \<le> e_weight e \<and> e_weight e \<le> 1"
  have a: "\<forall>e \<in> set (edges st). ?Q e"
    using assms(1) by (simp add: weights_in_range_def)
  have "\<forall>e \<in> set (update_first (\<lambda>e. e_id e = edge_id)
                      (\<lambda>e. e\<lparr>e_weight := min 1 (e_weight e + s * 0.8)\<rparr>) (edges st)). ?Q e"
    by (rule update_first_pres [OF a]) (use assms(2) in \<open>auto simp: min_def\<close>)
  then show ?thesis
    using assms(2) by (auto simp: apply_incident_effect_def Some Let_def weights_in_range_def min_def)
qed

lemma create_incident_range:
  assumes "weights_in_range st"
  shows "weights_in_range (snd (create_incident edge_id severity duration ty st))"
proof (cases "find (\<lambda>e. e_id e = edge_id) (edges st)")
  case None
  with assms show ?thesis by (simp add: create_incident_def)
next
  case (Some edge)
  show ?thesis
  proof (cases "e_isIncident edge")
    case True
    with Some assms show ?thesis by (simp add: create_incident_def)
  next
    case False
    obtain t1 w1 where t1: "time_ms (env st) = (t1, w1)" by (cases "time_ms (env st)")
    obtain u w2 where u: "uuid4_hex9 w1 = (u, w2)" by (cases "uuid4_hex9 w1")
    obtain t2 w3 where t2: "time_ms w2 = (t2, w3)" by (cases "time_ms w2")
    obtain t3 w4 where t3: "time_ms w3 = (t3, w4)" by (cases "time_ms w3")
    obtain ty1 w5 where ty1: "type_or_random ty w4 = (ty1, w5)" by (cases "type_or_random ty w4")
    obtain ty2 w6 where ty2: "type_or_random ty w5 = (ty2, w6)" by (cases "type_or_random ty w5")
    let ?Q = "\<lambda>e. 0 \<le> e_weight e \<and> e_weight e \<le> 1"
    let ?s = "max 0 (min 1 severity)"
    let ?es = "update_first (\<lambda>e. e_id e = edge_id)
                 (\<lambda>e. e\<lparr>e_isIncident := True, e_incidentSeverity := ?s\<rparr>) (edges st)"
    have a: "\<forall>e \<in> set (edges st). ?Q e"
      using assms by (simp add: weights_in_range_def)
    have b: "\<forall>e \<in> set ?es. ?Q e"
      by (rule update_first_pres [OF a]) simp
    have c: "0 \<le> ?s" by simp
    show ?thesis
      using Some False
      by (simp add: create_incident_def Let_def t1 u t2 t3 ty1 ty2)
         (rule apply_incident_effect_range [OF _ c], use b in \<open>simp add: weights_in_range_def\<close>)
  qed
qed

lemma clear_edge_flags_range:
  "\<forall>e \<in> set es. 0 \<le> e_weight e \<and> e_weight e \<le> 1 \<Longrightarrow>
   \<forall>e \<in> set (clear_edge_flags i es). 0 \<le> e_weight e \<and> e_weight e \<le> 1"
  unfolding clear_edge_flags_def by (rule update_first_pres) simp_all

lemma fold_clear_edge_flags_range:
  "\<forall>e \<in> set es. 0 \<le> e_weight e \<and> e_weight e \<le> 1 \<Longrightarrow>
   \<forall>e \<in> set (fold (\<lambda>i es. clear_edge_flags (i_edgeId i) es) incs es).
      0 \<le> e_weight e \<and> e_weight e \<le> 1"
proof (induction incs arbitrary: es)
  case Nil
  then show ?case by simp
next
  case (Cons i incs)
  from Cons.IH [OF clear_edge_flags_range [OF Cons.prems]] show ?case by simp
qed

lemma update_incidents_range:
  assumes "weights_in_range st"
  shows "weights_in_range (update_incidents st)"
proof -
  obtain now w1 where t: "time_ms (env st) = (now, w1)" by (cases "time_ms (env st)")
  have a: "\<forall>e \<in> set (edges st). 0 \<le> e_weight e \<and> e_weight e \<le> 1"
    using assms by (simp add: weights_in_range_def)
  from fold_clear_edge_flags_range [OF a, of "filter (\<lambda>i. i_endTime i \<le> now) (incidents st)"]
  show ?thesis
    by (simp add: update_incidents_def weights_in_range_def Let_def t)
qed

lemma clear_incident_range:
  assumes "weights_in_range st"
  shows "weights_in_range (snd (clear_incident incident_id st))"
proof (cases "find (\<lambda>i. i_id i = incident_id) (incidents st)")
  case None
  with assms show ?thesis by (simp add: clear_incident_def)
next
  case (Some inc)
  have a: "\<forall>e \<in> set (edges st). 0 \<le> e_weight e \<and> e_weight e \<le> 1"
    using assms by (simp add: weights_in_range_def)
  from clear_edge_flags_range [OF a, of "i_edgeId inc"] show ?thesis
    by (simp add: clear_incident_def Some weights_in_range_def)
qed

lemma new_traffic_level_range:
  "new_traffic_level tm edge st = (t, w) \<Longrightarrow> 0 \<le> t \<and> t \<le> 1"
  by (auto simp: new_traffic_level_def Let_def split: prod.splits)

lemma random_incident_range:
  assumes "weights_in_range st"
  shows "weights_in_range (snd (random_incident edge st))"
proof -
  obtain r4 w1 where r4: "random (env st) = (r4, w1)" by (cases "random (env st)")
  obtain r5 w2 where r5: "random w1 = (r5, w2)" by (cases "random w1")
  obtain r6 w3 where r6: "random w2 = (r6, w3)" by (cases "random w2")
  have a: "weights_in_range (st\<lparr>env := w3\<rparr>)" "weights_in_range (st\<lparr>env := w1\<rparr>)"
    using assms by (simp_all add: weights_in_range_def)
  from create_incident_range [OF a(1), of "e_id edge" "r5 * 0.5 + 0.3" "30000 + r6 * 60000" None]
  show ?thesis
    using assms a(2)
    by (auto simp: random_incident_def Let_def r4 r5 r6 split: prod.splits sum.splits)
qed

lemma update_edge_range:
  assumes "weights_in_range st"
  shows "weights_in_range (snd (update_edge tm i st))"
proof -
  obtain t w1 where t: "new_traffic_level tm (edges st ! i) st = (t, w1)"
    by (cases "new_traffic_level tm (edges st ! i) st")
  obtain k w2 where k: "randint (- 5) 5 w1 = (k, w2)" by (cases "randint (- 5) 5 w1")
  from new_traffic_level_range [OF t] have tr: "0 \<le> t" "t \<le> 1" by simp_all
  let ?e1 = "(edges st ! i)\<lparr>e_weight := t, e_speed := calculate_speed t,
               e_vehicleCount := max 0 (py_int (t * 100) + k)\<rparr>"
  have "weights_in_range (st\<lparr>edges := (edges st)[i := ?e1], env := w2\<rparr>)"
    using assms tr by (auto simp: weights_in_range_def dest!: set_update_subset_insert [THEN subsetD])
  from random_incident_range [OF this] show ?thesis
    by (simp add: update_edge_def Let_def t k)
qed

lemma update_edges_range:
  "weights_in_range st \<Longrightarrow> weights_in_range (snd (update_edges tm ns st))"
proof (induction ns arbitrary: st)
  case Nil
  then show ?case by simp
next
  case (Cons i ns)
  obtain res st1 where u: "update_edge tm i st = (res, st1)" by (cases "update_edge tm i st")
  from update_edge_range [OF Cons.prems, of tm i] u have w1: "weights_in_range st1" by simp
  show ?case
  proof (cases res)
    case (Inl err)
    with u w1 show ?thesis by simp
  next
    case (Inr x)
    with u Cons.IH [OF w1] show ?thesis by simp
  qed
qed

lemma update_all_edges_range:
  assumes "weights_in_range st"
  shows "weights_in_range (snd (update_all_edges st))"
proof -
  obtain h w1 where h: "now_hour (env (st\<lparr>update_count := update_count st + 1\<rparr>)) = (h, w1)"
    by (cases "now_hour (env (st\<lparr>update_count := update_count st + 1\<rparr>))")
  have "weights_in_range (st\<lparr>update_count := update_count st + 1, env := w1\<rparr>)"
    using assms by (simp add: weights_in_range_def)
  from update_edges_range [OF this] show ?thesis
    using h by (simp add: update_all_edges_def Let_def)
qed

lemma update_traffic_range:
  assumes "weights_in_range st"
  shows "weights_in_range (snd (update_traffic st))"
proof -
  obtain res st1 where u: "update_all_edges st = (res, st1)" by (cases "update_all_edges st")
  from update_all_edges_range [OF assms] u have w1: "weights_in_range st1" by simp
  show ?thesis
    using u w1 update_incidents_range [OF w1]
    by (cases res) (simp_all add: update_traffic_def)
qed

lemma update_config_range:
  assumes "weights_in_range st"
  shows "weights_in_range (snd (update_config nc st))"
proof -
  have cfg: "\<And>s f. weights_in_range s \<Longrightarrow> weights_in_range (s\<lparr>config := f\<rparr>)"
    by (simp add: weights_in_range_def)
  obtain st1 re1 where s1: "(case cd_node_count nc of
               Some n \<Rightarrow>
                 if n \<noteq> node_count (config st)
                 then (st\<lparr>config := (config st)\<lparr>node_count := n\<rparr>\<rparr>, True)
                 else (st, False)
             | None \<Rightarrow> (st, False)) = (st1, re1)"
    by (cases "(case cd_node_count nc of
               Some n \<Rightarrow>
                 if n \<noteq> node_count (config st)
                 then (st\<lparr>config := (config st)\<lparr>node_count := n\<rparr>\<rparr>, True)
                 else (st, False)
             | None \<Rightarrow> (st, False))")
  have w1: "weights_in_range st1"
    using s1 assms by (auto simp: weights_in_range_def split: option.splits if_splits)
  obtain st2 re2 where s2: "(case cd_road_density nc of
               Some d \<Rightarrow> (st1\<lparr>config := (config st1)\<lparr>road_density := d\<rparr>\<rparr>, True)
             | None \<Rightarrow> (st1, re1)) = (st2, re2)"
    by (cases "(case cd_road_density nc of
               Some d \<Rightarrow> (st1\<lparr>config := (config st1)\<lparr>road_density := d\<rparr>\<rparr>, True)
             | None \<Rightarrow> (st1, re1))")
  have w2: "weights_in_range st2"
    using s2 w1 by (auto simp: weights_in_range_def split: option.splits)
  obtain res st3 where s3: "(if re2 then initialize_graph st2 else (Inr (), st2)) = (res, st3)"
    by (cases "(if re2 then initialize_graph st2 else (Inr (), st2))")
  have w3: "weights_in_range st3"
    using s3 w2 initialize_graph_range [of st2] by (auto split: if_splits)
  show ?thesis
    unfolding update_config_def Let_def s1 prod.case s2 s3
    using w3 by (cases res) (simp_all add: weights_in_range_def)
qed

lemma apply_operation_range:
  "weights_in_range st \<Longrightarrow> weights_in_range (apply_operation op st)"
  by (cases op)
     (simp_all add: update_traffic_range create_incident_range clear_incident_range
        update_config_range)

lemma fold_apply_operation_range:
  "weights_in_range st \<Longrightarrow> weights_in_range (fold apply_operation ops st)"
  by (induction ops arbitrary: st) (simp_all add: apply_operation_range)

lemma new_generator_range: "weights_in_range (snd (new_generator cd w))"
  unfolding new_generator_def by (rule initialize_graph_range)

lemma example_weights_in_range: "weights_in_range example_state"
  by (simp add: weights_in_range_def example_state_def example_edges_def)

text \<open>
  Claim C3. Every edge weight is in the unit interval in the state the constructor leaves,
  and after any sequence of ticks, incident creations, incident clears and configuration
  updates (with their regenerations), whatever the random draws, the clock and the
  configuration: each operation keeps the property, whether it returns or raises.
\<close>

theorem weights_stay_in_unit_interval:
  "(\<forall>e \<in> set (edges (fold apply_operation ops (snd (new_generator cd w)))).
      0 \<le> e_weight e \<and> e_weight e \<le> 1) \<and>
   (weights_in_range st \<longrightarrow> weights_in_range (fold apply_operation ops st))"
proof (rule conjI)
  have "weights_in_range (fold apply_operation ops (snd (new_generator cd w)))"
    by (rule fold_apply_operation_range [OF new_generator_range])
  then show "\<forall>e \<in> set (edges (fold apply_operation ops (snd (new_generator cd w)))).
      0 \<le> e_weight e \<and> e_weight e \<le> 1"
    unfolding weights_in_range_def .
  show "weights_in_range st \<longrightarrow> weights_in_range (fold apply_operation ops st)"
    by (rule impI) (rule fold_apply_operation_range)
qed

theorem weights_stay_in_unit_interval_witness:
  "weights_in_range example_state \<and>
   weights_in_range
     (fold apply_operation
        [Create_incident ''edge_0'' 1 60000 None, Tick, Clear_incident ''incident_1000_0123456789'',
         Update_config \<lparr>cd_node_count = Some 4, cd_update_interval = None,
           cd_base_traffic_level = None, cd_traffic_variability = None,
           cd_incident_probability = None, cd_road_density = None\<rparr>]
        example_state)"
proof (rule conjI)
  show "weights_in_range example_state"
    by (rule example_weights_in_range)
  show "weights_in_range
     (fold apply_operation
        [Create_incident ''edge_0'' 1 60000 None, Tick, Clear_incident ''incident_1000_0123456789'',
         Update_config \<lparr>cd_node_count = Some 4, cd_update_interval = None,
           cd_base_traffic_level = None, cd_traffic_variability = None,
           cd_incident_probability = None, cd_road_density = None\<rparr>]
        example_state)"
    by (rule mp [OF conjunct2 [OF weights_stay_in_unit_interval] example_weights_in_range])
qed

subsection \<open>The effect of an incident\<close>

lemma find_target_index:
  "find P xs = Some x \<Longrightarrow>
     length (takeWhile (\<lambda>y. \<not> P y) xs) < length xs \<and>
     xs ! length (takeWhile (\<lambda>y. \<not> P y) xs) = x \<and> P x"
  by (induction xs) (auto split: if_splits)

lemma update_first_list_update:
  "find P xs = Some x \<Longrightarrow>
     update_first P f xs = xs[length (takeWhile (\<lambda>y. \<not> P y) xs) := f x]"
  by (induction xs) (auto split: if_splits)

lemma find_update_first_same:
  "find P xs = Some x \<Longrightarrow> P (f x) \<Longrightarrow> find P (update_first P f xs) = Some (f x)"
  by (induction xs) (auto split: if_splits)

lemma takeWhile_update_first:
  "(\<And>x. P (f x) = P x) \<Longrightarrow>
     takeWhile (\<lambda>y. \<not> P y) (update_first P f xs) = takeWhile (\<lambda>y. \<not> P y) xs"
  by (induction xs) auto

lemma connected_to_cong:
  "e_id a = e_id b \<Longrightarrow> e_from a = e_from b \<Longrightarrow> e_to a = e_to b \<Longrightarrow>
     connected_to a = connected_to b"
  by (auto simp: connected_to_def fun_eq_iff)

lemma apply_incident_effect_weights:
  assumes f: "find (\<lambda>e. e_id e = edge_id) (edges st) = Some edge"
  shows "length (edges (apply_incident_effect edge_id s st)) = length (edges st) \<and>
         (\<forall>i < length (edges st).
            e_weight (edges (apply_incident_effect edge_id s st) ! i) =
              (if i = target_index edge_id (edges st)
               then min 1 (e_weight (edges st ! i) + s * 0.8)
               else if connected_to edge (edges st ! i)
               then min 1 (e_weight (edges st ! i) + s * 0.5)
               else e_weight (edges st ! i)))"
proof -
  let ?P = "\<lambda>e. e_id e = edge_id"
  let ?t = "length (takeWhile (\<lambda>y. \<not> ?P y) (edges st))"
  from find_target_index [OF f]
  have t: "?t < length (edges st)" "edges st ! ?t = edge" "e_id edge = edge_id" by simp_all
  have ti: "target_index edge_id (edges st) = ?t"
    by (simp add: target_index_def)
  have nc: "\<not> connected_to edge (edge\<lparr>e_weight := w\<rparr>)" for w
    by (simp add: connected_to_def)
  show ?thesis
    unfolding apply_incident_effect_def f option.case Let_def
      update_first_list_update [OF f] ti
    using t by (auto simp: nth_list_update nc connected_to_def)
qed

text \<open>
  Claim C4, amended. Creating an incident on an existing edge without an active incident
  succeeds; with \<open>s\<close> the severity recorded in the incident (the requested one clamped to
  the unit interval), the weight of the target edge (the first edge with that id) becomes
  \<open>min 1 (w + s * 0.8)\<close>, the weight of every edge with another id that shares an
  endpoint with it becomes \<open>min 1 (w + s * 0.5)\<close>, and no other weight changes. So the
  target's weight rises by \<open>min (1 - w) (s * 0.8)\<close>: by \<open>s * 0.8\<close> unless the cap at 1
  cuts the rise short.
\<close>

theorem create_incident_raises_weights:
  assumes f: "find (\<lambda>e. e_id e = edge_id) (edges st) = Some edge"
    and ni: "\<not> e_isIncident edge"
  shows "\<exists>inc st'. create_incident edge_id severity duration ty st = (Inr inc, st') \<and>
          i_severity inc = max 0 (min 1 severity) \<and>
          length (edges st') = length (edges st) \<and>
          (\<forall>i < length (edges st).
             e_weight (edges st' ! i) =
               (if i = target_index edge_id (edges st)
                then min 1 (e_weight (edges st ! i) + i_severity inc * 0.8)
                else if connected_to edge (edges st ! i)
                then min 1 (e_weight (edges st ! i) + i_severity inc * 0.5)
                else e_weight (edges st ! i)))"
proof -
  let ?P = "\<lambda>e. e_id e = edge_id"
  let ?s = "max 0 (min 1 severity)"
  let ?flag = "\<lambda>e. e\<lparr>e_isIncident := True, e_incidentSeverity := ?s\<rparr>"
  let ?t = "length (takeWhile (\<lambda>y. \<not> ?P y) (edges st))"
  obtain t1 w1 where t1: "time_ms (env st) = (t1, w1)" by (cases "time_ms (env st)")
  obtain u w2 where u: "uuid4_hex9 w1 = (u, w2)" by (cases "uuid4_hex9 w1")
  obtain t2 w3 where t2: "time_ms w2 = (t2, w3)" by (cases "time_ms w2")
  obtain t3 w4 where t3: "time_ms w3 = (t3, w4)" by (cases "time_ms w3")
  obtain ty1 w5 where ty1: "type_or_random ty w4 = (ty1, w5)" by (cases "type_or_random ty w4")
  obtain ty2 w6 where ty2: "type_or_random ty w5 = (ty2, w6)" by (cases "type_or_random ty w5")
  define inc where "inc =
      \<lparr>i_id = ''incident_'' @ str_int t1 @ ''_'' @ u, i_edgeId = edge_id,
       i_from = e_from edge, i_to = e_to edge, i_severity = ?s, i_startTime = t2,
       i_endTime = t3 + py_int (max 10000 (min 3600000 duration)), i_type = ty1,
       i_description = get_incident_description ty2 ?s\<rparr>"
  define st2 where "st2 = st\<lparr>incidents := incidents st @ [inc], env := w6,
                             edges := update_first ?P ?flag (edges st)\<rparr>"
  have ci: "create_incident edge_id severity duration ty st
              = (Inr inc, apply_incident_effect edge_id ?s st2)"
    using f ni by (simp add: create_incident_def Let_def t1 u t2 t3 ty1 ty2 inc_def st2_def)
  from find_target_index [OF f]
  have t: "?t < length (edges st)" "edges st ! ?t = edge" "e_id edge = edge_id" by simp_all
  have e2: "edges st2 = (edges st)[?t := ?flag edge]"
    by (simp add: st2_def update_first_list_update [OF f])
  have f2: "find ?P (edges st2) = Some (?flag edge)"
    using find_update_first_same [OF f, of ?flag] t(3) by (simp add: st2_def)
  have ti: "target_index edge_id (edges st2) = target_index edge_id (edges st)"
    unfolding target_index_def st2_def
    using takeWhile_update_first [of ?P ?flag "edges st"] by simp
  have cc: "connected_to (?flag edge) = connected_to edge"
    by (rule connected_to_cong) simp_all
  have w2: "e_weight (edges st2 ! i) = e_weight (edges st ! i)" if "i < length (edges st)" for i
    using that t by (auto simp: e2 nth_list_update)
  have c2: "connected_to edge (edges st2 ! i) = connected_to edge (edges st ! i)"
    if "i < length (edges st)" for i
    using that t by (auto simp: e2 nth_list_update connected_to_def)
  have l2: "length (edges st2) = length (edges st)" by (simp add: e2)
  from apply_incident_effect_weights [OF f2, of ?s]
  have "length (edges (apply_incident_effect edge_id ?s st2)) = length (edges st) \<and>
        (\<forall>i < length (edges st).
           e_weight (edges (apply_incident_effect edge_id ?s st2) ! i) =
              (if i = target_index edge_id (edges st)
               then min 1 (e_weight (edges st ! i) + ?s * 0.8)
               else if connected_to edge (edges st ! i)
               then min 1 (e_weight (edges st ! i) + ?s * 0.5)
               else e_weight (edges st ! i)))"
    by (simp add: l2 ti cc w2 c2)
  moreover have "i_severity inc = ?s" by (simp add: inc_def)
  ultimately show ?thesis
    using ci by (intro exI [of _ inc] exI [of _ "apply_incident_effect edge_id ?s st2"]) simp
qed

lemma example_create_incident_edges:
  "edges (snd (create_incident ''edge_0'' 1 60000 None example_state)) =
     [\<lparr>e_id = ''edge_0'', e_from = ''node_0'', e_to = ''node_1'', e_weight = 1,
       e_distance = 10, e_speed = 16, e_vehicleCount = 80, e_isIncident = True,
       e_incidentSeverity = 1, e_bidirectional = True\<rparr>,
      \<lparr>e_id = ''edge_1'', e_from = ''node_1'', e_to = ''node_2'', e_weight = 7 / 10,
       e_distance = 12, e_speed = 49, e_vehicleCount = 20, e_isIncident = False,
       e_incidentSeverity = 0, e_bidirectional = True\<rparr>]"
  by (simp add: create_incident_def example_state_def example_edges_def example_env_def Let_def
     time_ms_def uuid4_hex9_def type_or_random_def get_random_incident_type_def choice_def
     apply_incident_effect_def connected_to_def)

theorem create_incident_raises_weights_witness:
  "\<exists>inc st'. create_incident ''edge_0'' 1 60000 None example_state = (Inr inc, st') \<and>
      i_severity inc = 1 \<and> e_weight (edges st' ! 0) = 1 \<and> e_weight (edges st' ! 1) = 7 / 10"
proof -
  have f: "find (\<lambda>e. e_id e = ''edge_0'') (edges example_state) = Some (hd example_edges)"
    by (simp add: example_state_def example_edges_def)
  have n: "\<not> e_isIncident (hd example_edges)"
    by (simp add: example_edges_def)
  from create_incident_raises_weights [OF f n, of 1 60000 None]
  obtain inc st' where
    c: "create_incident ''edge_0'' 1 60000 None example_state = (Inr inc, st')" and
    s: "i_severity inc = 1" by auto
  from c have "edges st' = edges (snd (create_incident ''edge_0'' 1 60000 None example_state))"
    by simp
  then have "e_weight (edges st' ! 0) = 1 \<and> e_weight (edges st' ! 1) = 7 / 10"
    by (simp add: example_create_incident_edges)
  with c s show ?thesis by blast
qed

text \<open>
  Claim C4, as stated, says that the target's weight rises by at least \<open>min 1 (s * 0.8)\<close>.
  On an edge of weight 0.8 an incident of severity 1 raises the weight to 1: by 0.2, less
  than 0.8.
\<close>

theorem incident_rise_capped:
  "e_weight (edges (snd (create_incident ''edge_0'' 1 60000 None example_state)) ! 0)
     - e_weight (edges example_state ! 0) < min 1 (1 * 0.8)"
  by (simp add: example_create_incident_edges) (simp add: example_state_def example_edges_def)

subsection \<open>Speed and weight\<close>

text \<open>
  Claim C5 at a failing input. In the example state every speed is
  \<open>calculate_speed\<close> of the weight. After \<^verbatim>\<open>create_incident('edge_0', 1.0)\<close> the weight of
  the edge is 1, for which \<open>calculate_speed\<close> gives 5, and its speed is still 16:
  \<^verbatim>\<open>_apply_incident_effect\<close> writes \<^verbatim>\<open>weight\<close> and leaves \<^verbatim>\<open>speed\<close> as it was.
\<close>

theorem speed_stale_after_incident:
  "e_speed (edges example_state ! 0) = calculate_speed (e_weight (edges example_state ! 0)) \<and>
   e_speed (edges example_state ! 1) = calculate_speed (e_weight (edges example_state ! 1)) \<and>
   e_speed (edges (snd (create_incident ''edge_0'' 1 60000 None example_state)) ! 0) = 16 \<and>
   calculate_speed
     (e_weight (edges (snd (create_incident ''edge_0'' 1 60000 None example_state)) ! 0)) = 5"
  by (simp add: example_create_incident_edges)
     (simp add: example_state_def example_edges_def calculate_speed_def py_round_def Let_def)

subsection \<open>Expired incidents\<close>

lemma fold_remove1_Cons_other:
  "\<forall>y \<in> set ys. y \<noteq> x \<Longrightarrow> fold remove1 ys (x # xs) = x # fold remove1 ys xs"
  by (induction ys arbitrary: xs) auto

lemma fold_remove1_filter: "fold remove1 (filter P xs) xs = filter (\<lambda>x. \<not> P x) xs"
proof (induction xs)
  case Nil
  then show ?case by simp
next
  case (Cons x xs)
  show ?case
  proof (cases "P x")
    case True
    with Cons show ?thesis by simp
  next
    case False
    then have "\<forall>y \<in> set (filter P xs). y \<noteq> x" by auto
    from fold_remove1_Cons_other [OF this] Cons False show ?thesis by simp
  qed
qed

lemma clear_edge_flags_cleared:
  "edge_id = edge_id' \<or> flags_cleared edge_id es \<Longrightarrow>
     flags_cleared edge_id (clear_edge_flags edge_id' es)"
  unfolding flags_cleared_def clear_edge_flags_def
  by (induction es) (auto split: if_splits)

lemma fold_clear_edge_flags_cleared:
  "(\<exists>i \<in> set incs. i_edgeId i = edge_id) \<or> flags_cleared edge_id es \<Longrightarrow>
     flags_cleared edge_id (fold (\<lambda>i es. clear_edge_flags (i_edgeId i) es) incs es)"
proof (induction incs arbitrary: es)
  case Nil
  then show ?case by simp
next
  case (Cons i incs)
  have "(\<exists>j \<in> set incs. i_edgeId j = edge_id) \<or>
        flags_cleared edge_id (clear_edge_flags (i_edgeId i) es)"
    using Cons.prems clear_edge_flags_cleared [of edge_id "i_edgeId i" es] by auto
  from Cons.IH [OF this] show ?case by simp
qed

lemma update_incidents_expired:
  assumes "time_ms (env st) = (now, w)"
  shows "incidents (update_incidents st) = filter (\<lambda>i. \<not> i_endTime i \<le> now) (incidents st)"
    and "i \<in> set (incidents st) \<Longrightarrow> i_endTime i \<le> now \<Longrightarrow>
           flags_cleared (i_edgeId i) (edges (update_incidents st))"
proof -
  show "incidents (update_incidents st) = filter (\<lambda>i. \<not> i_endTime i \<le> now) (incidents st)"
    by (simp add: update_incidents_def Let_def assms fold_remove1_filter)
  assume "i \<in> set (incidents st)" "i_endTime i \<le> now"
  then have "\<exists>j \<in> set (filter (\<lambda>i. i_endTime i \<le> now) (incidents st)). i_edgeId j = i_edgeId i"
    by auto
  then show "flags_cleared (i_edgeId i) (edges (update_incidents st))"
    using fold_clear_edge_flags_cleared
      [of "filter (\<lambda>i. i_endTime i \<le> now) (incidents st)" "i_edgeId i" "edges st"]
    by (simp add: update_incidents_def Let_def assms)
qed

lemma map_update_first:
  "(\<And>x. g (f x) = g x) \<Longrightarrow> map g (update_first P f xs) = map g xs"
  by (induction xs) auto

lemma apply_incident_effect_ids:
  "map e_id (edges (apply_incident_effect edge_id s st)) = map e_id (edges st)"
proof (cases "find (\<lambda>e. e_id e = edge_id) (edges st)")
  case None
  then show ?thesis by (simp add: apply_incident_effect_def)
next
  case (Some edge)
  have "map e_id (update_first (\<lambda>e. e_id e = edge_id)
          (\<lambda>e. e\<lparr>e_weight := min 1 (e_weight e + s * 0.8)\<rparr>) (edges st)) = map e_id (edges st)"
    by (rule map_update_first) simp
  then show ?thesis
    by (simp add: apply_incident_effect_def Some Let_def o_def if_distrib [of e_id] cong: if_cong)
qed

lemma apply_incident_effect_incidents:
  "incidents (apply_incident_effect edge_id s st) = incidents st"
  by (simp add: apply_incident_effect_def Let_def split: option.splits)

lemma apply_incident_effect_env:
  "env (apply_incident_effect edge_id s st) = env st"
  by (simp add: apply_incident_effect_def Let_def split: option.splits)

lemma create_incident_frame:
  "map e_id (edges (snd (create_incident edge_id severity duration ty st))) = map e_id (edges st) \<and>
   set (incidents st) \<subseteq> set (incidents (snd (create_incident edge_id severity duration ty st)))"
proof (cases "find (\<lambda>e. e_id e = edge_id) (edges st)")
  case None
  then show ?thesis by (simp add: create_incident_def)
next
  case (Some edge)
  have m: "map e_id (update_first (\<lambda>e. e_id e = edge_id)
          (\<lambda>e. e\<lparr>e_isIncident := True, e_incidentSeverity := max 0 (min 1 severity)\<rparr>) (edges st))
            = map e_id (edges st)"
    by (rule map_update_first) simp
  show ?thesis
    using m
    by (auto simp: create_incident_def Some Let_def apply_incident_effect_ids
        apply_incident_effect_incidents split: prod.splits)
qed

lemma create_incident_returns:
  "find (\<lambda>e. e_id e = edge_id) (edges st) = Some edge \<Longrightarrow> \<not> e_isIncident edge \<Longrightarrow>
     \<exists>inc. fst (create_incident edge_id severity duration ty st) = Inr inc"
  by (simp add: create_incident_def Let_def split: prod.splits)

lemma find_distinct_nth:
  "distinct (map f xs) \<Longrightarrow> i < length xs \<Longrightarrow> find (\<lambda>x. f x = f (xs ! i)) xs = Some (xs ! i)"
proof (induction xs arbitrary: i)
  case Nil
  then show ?case by simp
next
  case (Cons x xs)
  show ?case
  proof (cases i)
    case 0
    then show ?thesis by simp
  next
    case (Suc j)
    with Cons.prems have "j < length xs" "f (xs ! j) \<in> f ` set xs" "f x \<notin> f ` set xs" by auto
    then have "f x \<noteq> f (xs ! j)" by metis
    with Cons Suc show ?thesis by simp
  qed
qed

lemma random_incident_ok:
  assumes "distinct (map e_id (edges st))" and "i < length (edges st)" and "edge = edges st ! i"
  shows "fst (random_incident edge st) = Inr () \<and>
         map e_id (edges (snd (random_incident edge st))) = map e_id (edges st) \<and>
         set (incidents st) \<subseteq> set (incidents (snd (random_incident edge st)))"
proof -
  obtain r4 w1 where r4: "random (env st) = (r4, w1)" by (cases "random (env st)")
  obtain r5 w2 where r5: "random w1 = (r5, w2)" by (cases "random w1")
  obtain r6 w3 where r6: "random w2 = (r6, w3)" by (cases "random w2")
  let ?st = "st\<lparr>env := w3\<rparr>"
  let ?ci = "create_incident (e_id edge) (r5 * 0.5 + 0.3) (30000 + r6 * 60000) None ?st"
  have fr: "map e_id (edges (snd ?ci)) = map e_id (edges st)"
           "set (incidents st) \<subseteq> set (incidents (snd ?ci))"
    using create_incident_frame [of "e_id edge" "r5 * 0.5 + 0.3" "30000 + r6 * 60000" None ?st]
    by simp_all
  show ?thesis
  proof (cases "e_isIncident edge")
    case True
    then show ?thesis by (simp add: random_incident_def)
  next
    case False
    have "find (\<lambda>e. e_id e = e_id edge) (edges ?st) = Some edge"
      using find_distinct_nth [OF assms(1,2)] assms(3) by simp
    from create_incident_returns [OF this False]
    obtain inc where "fst ?ci = Inr inc" by blast
    then obtain st1 where "?ci = (Inr inc, st1)" by (cases ?ci) simp
    with fr show ?thesis
      using False by (simp add: random_incident_def Let_def r4 r5 r6)
  qed
qed

lemma update_edge_ok:
  assumes "distinct (map e_id (edges st))" and "i < length (edges st)"
  shows "fst (update_edge tm i st) = Inr () \<and>
         map e_id (edges (snd (update_edge tm i st))) = map e_id (edges st) \<and>
         set (incidents st) \<subseteq> set (incidents (snd (update_edge tm i st)))"
proof -
  obtain t w1 where t: "new_traffic_level tm (edges st ! i) st = (t, w1)"
    by (cases "new_traffic_level tm (edges st ! i) st")
  obtain k w2 where k: "randint (- 5) 5 w1 = (k, w2)" by (cases "randint (- 5) 5 w1")
  let ?e1 = "(edges st ! i)\<lparr>e_weight := t, e_speed := calculate_speed t,
               e_vehicleCount := max 0 (py_int (t * 100) + k)\<rparr>"
  let ?st1 = "st\<lparr>edges := (edges st)[i := ?e1], env := w2\<rparr>"
  have ids: "map e_id (edges ?st1) = map e_id (edges st)"
    using assms(2) by (simp add: map_update list_update_same_conv)
  have "distinct (map e_id (edges ?st1))" using assms(1) ids by simp
  moreover have "i < length (edges ?st1)" using assms(2) by simp
  moreover have "?e1 = edges ?st1 ! i" using assms(2) by simp
  ultimately have "fst (random_incident ?e1 ?st1) = Inr () \<and>
         map e_id (edges (snd (random_incident ?e1 ?st1))) = map e_id (edges ?st1) \<and>
         set (incidents ?st1) \<subseteq> set (incidents (snd (random_incident ?e1 ?st1)))"
    by (rule random_incident_ok)
  then show ?thesis
    using ids by (simp add: update_edge_def Let_def t k)
qed

lemma update_edges_ok:
  "distinct (map e_id (edges st)) \<Longrightarrow> \<forall>i \<in> set ns. i < length (edges st) \<Longrightarrow>
     fst (update_edges tm ns st) = Inr () \<and>
     map e_id (edges (snd (update_edges tm ns st))) = map e_id (edges st) \<and>
     set (incidents st) \<subseteq> set (incidents (snd (update_edges tm ns st)))"
proof (induction ns arbitrary: st)
  case Nil
  then show ?case by simp
next
  case (Cons i ns)
  obtain res st1 where u: "update_edge tm i st = (res, st1)" by (cases "update_edge tm i st")
  from Cons.prems have "i < length (edges st)" by simp
  from update_edge_ok [OF Cons.prems(1) this, of tm] u
  have r: "res = Inr ()" and ids: "map e_id (edges st1) = map e_id (edges st)"
    and inc: "set (incidents st) \<subseteq> set (incidents st1)" by simp_all
  from ids have len: "length (edges st1) = length (edges st)" by (rule map_eq_imp_length_eq)
  have d1: "distinct (map e_id (edges st1))" using Cons.prems(1) ids by simp
  have b1: "\<forall>i \<in> set ns. i < length (edges st1)" using Cons.prems(2) len by simp
  from Cons.IH [OF d1 b1] show ?case
    using u r ids inc by auto
qed

lemma update_all_edges_ok:
  assumes "distinct (map e_id (edges st))"
  shows "fst (update_all_edges st) = Inr () \<and>
         map e_id (edges (snd (update_all_edges st))) = map e_id (edges st) \<and>
         set (incidents st) \<subseteq> set (incidents (snd (update_all_edges st)))"
proof -
  obtain h w1 where h: "now_hour (env (st\<lparr>update_count := update_count st + 1\<rparr>)) = (h, w1)"
    by (cases "now_hour (env (st\<lparr>update_count := update_count st + 1\<rparr>))")
  let ?st0 = "st\<lparr>update_count := update_count st + 1, env := w1\<rparr>"
  have "distinct (map e_id (edges ?st0))" using assms by simp
  moreover have "\<forall>i \<in> set [0..<length (edges st)]. i < length (edges ?st0)" by simp
  ultimately have "fst (update_edges (time_multiplier_of h) [0..<length (edges st)] ?st0) = Inr () \<and>
     map e_id (edges (snd (update_edges (time_multiplier_of h) [0..<length (edges st)] ?st0)))
       = map e_id (edges ?st0) \<and>
     set (incidents ?st0)
       \<subseteq> set (incidents (snd (update_edges (time_multiplier_of h) [0..<length (edges st)] ?st0)))"
    by (rule update_edges_ok)
  then show ?thesis
    using h by (simp add: update_all_edges_def Let_def)
qed

lemma example_env_draws [simp]:
  "random example_env = (9 / 10, example_env)"
  "randint a b example_env = (a, example_env)"
  "time_ms example_env = (1000, example_env)"
  "now_hour example_env = (12, example_env)"
  by (simp_all add: random_def randint_def time_ms_def now_hour_def example_env_def)

lemma example_tick_edge_0:
  "update_edge 1 0 (example_state_incident\<lparr>update_count := Suc 0\<rparr>)
     = (Inr (), example_state_incident\<lparr>update_count := Suc 0,
          edges := [ticked_edge_0, edges example_state_incident ! Suc 0]\<rparr>)"
  by (simp add: update_edge_def new_traffic_level_def get_average_neighbor_traffic_def
      connected_to_def random_incident_def example_state_incident_def example_state_def
      calculate_speed_def py_round_def py_int_def Let_def ticked_edge_0_def)

lemma example_tick_edge_1:
  "update_edge 1 (Suc 0) (example_state_incident\<lparr>update_count := Suc 0,
          edges := [ticked_edge_0, edges example_state_incident ! Suc 0]\<rparr>)
     = (Inr (), example_state_incident\<lparr>update_count := Suc 0, edges := [ticked_edge_0, ticked_edge_1]\<rparr>)"
  by (simp add: update_edge_def new_traffic_level_def get_average_neighbor_traffic_def
      connected_to_def random_incident_def example_state_incident_def example_state_def
      calculate_speed_def py_round_def py_int_def Let_def ticked_edge_0_def ticked_edge_1_def)

lemma example_tick_edges:
  "update_all_edges example_state_incident
     = (Inr (), example_state_incident\<lparr>update_count := Suc 0, edges := [ticked_edge_0, ticked_edge_1]\<rparr>)"
proof -
  have l: "length (edges example_state_incident) = 2"
    by (simp add: example_state_incident_def)
  have u: "[0..<2] = [0, Suc 0]" by (simp add: upt_rec)
  have e: "env example_state_incident = example_env"
    by (simp add: example_state_incident_def example_state_def)
  have c: "update_count example_state_incident = 0"
    by (simp add: example_state_incident_def example_state_def)
  have s: "example_state_incident\<lparr>update_count := Suc 0, env := example_env\<rparr>
            = example_state_incident\<lparr>update_count := Suc 0\<rparr>"
    by (simp add: example_state_incident_def example_state_def)
  show ?thesis
    by (simp add: update_all_edges_def Let_def l u e c s time_multiplier_of_def example_tick_edge_0 example_tick_edge_1)
qed

lemma example_tick_incidents:
  "update_incidents (example_state_incident\<lparr>update_count := Suc 0, edges := [ticked_edge_0, ticked_edge_1]\<rparr>)
     = example_state_incident\<lparr>update_count := Suc 0,
         edges := [ticked_edge_0\<lparr>e_isIncident := False, e_incidentSeverity := 0\<rparr>, ticked_edge_1], incidents := []\<rparr>"
  by (simp add: update_incidents_def Let_def example_state_incident_def example_state_def
      example_incident_def clear_edge_flags_def ticked_edge_0_def ticked_edge_1_def)

text \<open>
  Claim C6. A tick on a generator whose edge ids are distinct (as the generated ids
  \<^verbatim>\<open>edge_0\<close>, \<^verbatim>\<open>edge_1\<close>, ... are) does not raise: it updates the edges and then runs
  \<^verbatim>\<open>_update_incidents\<close>, which reads the clock. Of the incidents present then (those of
  before the tick and those the tick created), every one whose end time is at or before
  that reading is gone from the list, none that remains has elapsed, and the edge that
  the id of an elapsed incident finds has its flag false and its severity 0.
\<close>

theorem tick_removes_expired_incidents:
  assumes "distinct (map e_id (edges st))"
  shows "\<exists>st1 now w.
           update_all_edges st = (Inr (), st1) \<and> time_ms (env st1) = (now, w) \<and>
           update_traffic st = (Inr (), update_incidents st1) \<and>
           set (incidents st) \<subseteq> set (incidents st1) \<and>
           (\<forall>inc \<in> set (incidents (update_incidents st1)). \<not> i_endTime inc \<le> now) \<and>
           (\<forall>inc \<in> set (incidents st1). i_endTime inc \<le> now \<longrightarrow>
              inc \<notin> set (incidents (update_incidents st1)) \<and>
              flags_cleared (i_edgeId inc) (edges (update_incidents st1)))"
proof -
  obtain res st1 where u: "update_all_edges st = (res, st1)" by (cases "update_all_edges st")
  obtain now w where t: "time_ms (env st1) = (now, w)" by (cases "time_ms (env st1)")
  from update_all_edges_ok [OF assms] u
  have r: "res = Inr ()" and sub: "set (incidents st) \<subseteq> set (incidents st1)" by simp_all
  have ut: "update_traffic st = (Inr (), update_incidents st1)"
    by (simp add: update_traffic_def u r)
  have inc: "incidents (update_incidents st1)
               = filter (\<lambda>i. \<not> i_endTime i \<le> now) (incidents st1)"
    by (rule update_incidents_expired(1) [OF t])
  have a: "\<forall>inc \<in> set (incidents (update_incidents st1)). \<not> i_endTime inc \<le> now"
    by (simp add: inc)
  have b: "\<forall>inc \<in> set (incidents st1). i_endTime inc \<le> now \<longrightarrow>
              inc \<notin> set (incidents (update_incidents st1)) \<and>
              flags_cleared (i_edgeId inc) (edges (update_incidents st1))"
    using update_incidents_expired(2) [OF t] by (simp add: inc)
  from u r t ut sub a b show ?thesis by blast
qed

theorem tick_removes_expired_incidents_witness:
  "distinct (map e_id (edges example_state_incident)) \<and>
   example_incident \<in> set (incidents example_state_incident) \<and>
   example_incident \<notin> set (incidents (snd (update_traffic example_state_incident))) \<and>
   flags_cleared (i_edgeId example_incident)
     (edges (snd (update_traffic example_state_incident)))"
proof -
  have d: "distinct (map e_id (edges example_state_incident))"
    by (simp add: example_state_incident_def)
  have m: "example_incident \<in> set (incidents example_state_incident)"
    by (simp add: example_state_incident_def)
  from tick_removes_expired_incidents [OF d]
  obtain st1 now w where
    u: "update_all_edges example_state_incident = (Inr (), st1)" and
    t: "time_ms (env st1) = (now, w)" and
    ut: "update_traffic example_state_incident = (Inr (), update_incidents st1)" and
    sub: "set (incidents example_state_incident) \<subseteq> set (incidents st1)" and
    b: "\<forall>inc \<in> set (incidents st1). i_endTime inc \<le> now \<longrightarrow>
              inc \<notin> set (incidents (update_incidents st1)) \<and>
              flags_cleared (i_edgeId inc) (edges (update_incidents st1))"
    by blast
  from u have st1: "st1 = example_state_incident
                      \<lparr>update_count := Suc 0, edges := [ticked_edge_0, ticked_edge_1]\<rparr>"
    by (simp add: example_tick_edges)
  have "env st1 = example_env"
    by (simp add: st1 example_state_incident_def example_state_def)
  with t have now: "now = 1000" by simp
  have "i_endTime example_incident \<le> now"
    by (simp add: now example_incident_def)
  moreover from m sub have "example_incident \<in> set (incidents st1)" by blast
  ultimately have "example_incident \<notin> set (incidents (update_incidents st1)) \<and>
      flags_cleared (i_edgeId example_incident) (edges (update_incidents st1))"
    using b by blast
  with d m ut show ?thesis by simp
qed

(*TRAFFIC_END*)

end
